theory Spec2Isabelle
  imports Complex_Main "HOL-Library.Sublist" "HOL-Library.Char_ord" "HOL-Library.List_Lexorder"
begin

section \<open>The persisted icon configuration\<close>

text \<open>
  The widget of \<^verbatim>\<open>src/fields/component/index.tsx\<close> is a view over one value of the host
  form: an object with the five fields of \<^verbatim>\<open>DEFAULT_ICON_CONFIG\<close>. A JavaScript number is a
  real or the sentinel \<^verbatim>\<open>NaN\<close> (what \<^verbatim>\<open>parseInt\<close> and \<^verbatim>\<open>parseFloat\<close> give on
  unparseable text); a string is a list of characters.
\<close>

datatype js_number = Num real | NaN

record icon_config =
  name :: string
  size_px :: js_number
  color :: string
  strokeWidth :: js_number
  absoluteStrokeWidth :: bool

definition DEFAULT_ICON_CONFIG :: icon_config where
  "DEFAULT_ICON_CONFIG =
     \<lparr>name = '''', size_px = Num 24, color = ''currentColor'',
      strokeWidth = Num 2, absoluteStrokeWidth = False\<rparr>"

text \<open>The keys of the configuration type, and a field's content read through its key.\<close>

datatype field_key = Name | Size | Color | StrokeWidth | AbsoluteStrokeWidth

datatype js_value = JNumber js_number | JString string | JBoolean bool

fun get_field :: "field_key \<Rightarrow> icon_config \<Rightarrow> js_value" where
  "get_field Name c = JString (name c)"
| "get_field Size c = JNumber (size_px c)"
| "get_field Color c = JString (color c)"
| "get_field StrokeWidth c = JNumber (strokeWidth c)"
| "get_field AbsoluteStrokeWidth c = JBoolean (absoluteStrokeWidth c)"

text \<open>
  The argument pair \<^verbatim>\<open>(field, newValue)\<close> of \<^verbatim>\<open>handleConfigChange\<close>: a key of the
  configuration together with a value of that field's type, as the controls of the
  configuration panel pass them.
\<close>

datatype config_change =
    SetName string
  | SetSize js_number
  | SetColor string
  | SetStrokeWidth js_number
  | SetAbsoluteStrokeWidth bool

fun field :: "config_change \<Rightarrow> field_key" where
  "field (SetName v) = Name"
| "field (SetSize v) = Size"
| "field (SetColor v) = Color"
| "field (SetStrokeWidth v) = StrokeWidth"
| "field (SetAbsoluteStrokeWidth v) = AbsoluteStrokeWidth"

fun newValue :: "config_change \<Rightarrow> js_value" where
  "newValue (SetName v) = JString v"
| "newValue (SetSize v) = JNumber v"
| "newValue (SetColor v) = JString v"
| "newValue (SetStrokeWidth v) = JNumber v"
| "newValue (SetAbsoluteStrokeWidth v) = JBoolean v"

text \<open>The object spread \<^verbatim>\<open>{...value, [field]: newValue}\<close>.\<close>

fun spread_with :: "icon_config \<Rightarrow> config_change \<Rightarrow> icon_config" where
  "spread_with c (SetName v) = c\<lparr>name := v\<rparr>"
| "spread_with c (SetSize v) = c\<lparr>size_px := v\<rparr>"
| "spread_with c (SetColor v) = c\<lparr>color := v\<rparr>"
| "spread_with c (SetStrokeWidth v) = c\<lparr>strokeWidth := v\<rparr>"
| "spread_with c (SetAbsoluteStrokeWidth v) = c\<lparr>absoluteStrokeWidth := v\<rparr>"

section \<open>The state of one widget instance\<close>

text \<open>
  \<open>fieldValue\<close> is what \<^verbatim>\<open>useField\<close> returns for the bound path (\<open>None\<close> for
  \<^verbatim>\<open>undefined\<close>), \<open>setValueCalls\<close> counts the calls of the host's setter; the other
  fields are the \<^verbatim>\<open>useState\<close> cells of the component and the debounced copy of the search
  text kept by \<^verbatim>\<open>useDebounce\<close>.
\<close>

record widget =
  fieldValue :: "icon_config option"
  setValueCalls :: nat
  fieldIsFocused :: bool
  search :: string
  page :: int
  hoveredIcon :: "string option"
  showConfig :: bool
  showResetConfirm :: bool
  debouncedSearch :: string

text \<open>The destructuring default \<^verbatim>\<open>const { value = DEFAULT_ICON_CONFIG, setValue }\<close>.\<close>

definition currentValue :: "widget \<Rightarrow> icon_config" where
  "currentValue w = (case fieldValue w of None \<Rightarrow> DEFAULT_ICON_CONFIG | Some v \<Rightarrow> v)"

definition setValue :: "icon_config \<Rightarrow> widget \<Rightarrow> widget" where
  "setValue v w = w\<lparr>fieldValue := Some v, setValueCalls := setValueCalls w + 1\<rparr>"

definition initial :: "icon_config option \<Rightarrow> widget" where
  "initial stored =
     \<lparr>fieldValue = stored, setValueCalls = 0, fieldIsFocused = False, search = '''',
      page = 0, hoveredIcon = None, showConfig = False, showResetConfirm = False,
      debouncedSearch = ''''\<rparr>"

subsection \<open>The three writers of the value\<close>

definition handleIconSelect :: "string \<Rightarrow> widget \<Rightarrow> widget" where
  "handleIconSelect iconName w =
     (setValue ((currentValue w)\<lparr>name := iconName\<rparr>) w)
       \<lparr>fieldIsFocused := False, search := ''''\<rparr>"

definition handleConfigChange :: "config_change \<Rightarrow> widget \<Rightarrow> widget" where
  "handleConfigChange ch w = setValue (spread_with (currentValue w) ch) w"

definition handleResetToDefaults :: "widget \<Rightarrow> widget" where
  "handleResetToDefaults w =
     (setValue (DEFAULT_ICON_CONFIG\<lparr>name := name (currentValue w)\<rparr>) w)
       \<lparr>showResetConfirm := False\<rparr>"

section \<open>Icon catalog, search and pagination\<close>

text \<open>
  \<^verbatim>\<open>dynamicIconImports\<close> is the icon library's table from icon name to the thunk that
  imports the icon. It is a parameter of the model: an association list in the order of
  \<^verbatim>\<open>Object.keys\<close>, read with \<open>map_of\<close>.
\<close>

datatype loader = Import string

type_synonym registry = "(string \<times> loader) list"

text \<open>\<^verbatim>\<open>Object.keys(dynamicIconImports).sort()\<close>: strings compared character by character.\<close>

definition allIcons :: "registry \<Rightarrow> string list" where
  "allIcons dynamicIconImports = sort (map fst dynamicIconImports)"

text \<open>
  \<^verbatim>\<open>String.prototype.toLowerCase\<close> on the letters \<open>A\<close> to \<open>Z\<close>; every other character
  is left as it is.
\<close>

definition toLowerCase_char :: "char \<Rightarrow> char" where
  "toLowerCase_char c =
     (case map_of (zip ''ABCDEFGHIJKLMNOPQRSTUVWXYZ'' ''abcdefghijklmnopqrstuvwxyz'') c of
        Some l \<Rightarrow> l
      | None \<Rightarrow> c)"

definition toLowerCase :: "string \<Rightarrow> string" where
  "toLowerCase s = map toLowerCase_char s"

text \<open>\<^verbatim>\<open>hay.includes(needle)\<close>: the needle starts at some position of the hay.\<close>

fun str_includes :: "string \<Rightarrow> string \<Rightarrow> bool" where
  "str_includes [] needle = (needle = [])"
| "str_includes (c # cs) needle = (prefix needle (c # cs) \<or> str_includes cs needle)"

definition filteredIcons :: "string list \<Rightarrow> string \<Rightarrow> string list" where
  "filteredIcons icons debounced =
     (if debounced = [] then icons
      else filter (\<lambda>name. str_includes (toLowerCase name) (toLowerCase debounced)) icons)"

definition ICONS_PER_PAGE :: int where
  "ICONS_PER_PAGE = 60"

text \<open>
  \<^verbatim>\<open>Array.prototype.slice(start, end)\<close>: a negative index counts from the end of the
  array, and both indices are clamped to the array.
\<close>

definition slice :: "int \<Rightarrow> int \<Rightarrow> 'a list \<Rightarrow> 'a list" where
  "slice start fin xs =
     (let len = int (length xs);
          k = (if start < 0 then max (len + start) 0 else min start len);
          final = (if fin < 0 then max (len + fin) 0 else min fin len)
      in take (nat (final - k)) (drop (nat k) xs))"

definition totalPages :: "string list \<Rightarrow> int" where
  "totalPages filtered = \<lceil>real (length filtered) / real_of_int ICONS_PER_PAGE\<rceil>"

definition paginatedIcons :: "string list \<Rightarrow> int \<Rightarrow> string list" where
  "paginatedIcons filtered p = slice (p * ICONS_PER_PAGE) ((p + 1) * ICONS_PER_PAGE) filtered"

text \<open>The filtered list in a state of the widget.\<close>

definition visibleIcons :: "registry \<Rightarrow> widget \<Rightarrow> string list" where
  "visibleIcons reg w = filteredIcons (allIcons reg) (debouncedSearch w)"

section \<open>The icon cache of the module\<close>

text \<open>
  \<^verbatim>\<open>iconCache\<close> is one object for the whole module, shared by every widget instance, and
  it starts as the object literal \<^verbatim>\<open>{}\<close>. The record field \<open>iconCache\<close> holds its own
  properties. A read \<^verbatim>\<open>iconCache[name]\<close> looks at the own properties first and then at
  the properties that every object literal inherits from \<^verbatim>\<open>Object.prototype\<close>, whose names
  are listed in \<open>objectPrototypeKeys\<close>; all of them hold truthy values.

  Each call of \<^verbatim>\<open>dynamic\<close> builds a new lazy component; \<open>Dynamic k l\<close> is the component
  built by call number \<open>k\<close> from the loader \<open>l\<close>, where \<open>None\<close> stands for the
  \<^verbatim>\<open>undefined\<close> that \<^verbatim>\<open>dynamicIconImports[name]\<close> gives for a name it does not have.
  \<open>ObjectPrototypeMember n\<close> is the value of \<^verbatim>\<open>Object.prototype[n]\<close>, which is not a
  component: the function \<^verbatim>\<open>Object\<close> for \<^verbatim>\<open>constructor\<close>, the object \<^verbatim>\<open>Object.prototype\<close>
  for \<^verbatim>\<open>__proto__\<close>, a built-in method for the other names.
\<close>

definition objectPrototypeKeys :: "string list" where
  "objectPrototypeKeys =
     [''constructor'', ''__defineGetter__'', ''__defineSetter__'', ''hasOwnProperty'',
      ''__lookupGetter__'', ''__lookupSetter__'', ''isPrototypeOf'',
      ''propertyIsEnumerable'', ''toString'', ''valueOf'', ''__proto__'',
      ''toLocaleString'']"

datatype component = Dynamic nat "loader option" | ObjectPrototypeMember string

record module_state =
  iconCache :: "string \<rightharpoonup> component"
  dynamicCalls :: nat

definition emptyModule :: module_state where
  "emptyModule = \<lparr>iconCache = Map.empty, dynamicCalls = 0\<rparr>"

text \<open>The read \<^verbatim>\<open>iconCache[name]\<close>; \<open>None\<close> is \<^verbatim>\<open>undefined\<close>.\<close>

definition cacheGet :: "module_state \<Rightarrow> string \<Rightarrow> component option" where
  "cacheGet m iconName =
     (case iconCache m iconName of
        Some c \<Rightarrow> Some c
      | None \<Rightarrow>
          (if iconName \<in> set objectPrototypeKeys then Some (ObjectPrototypeMember iconName)
           else None))"

text \<open>
  The test \<^verbatim>\<open>name in dynamicIconImports\<close>: the registry is an object literal too, so the
  test holds for its own keys and for the inherited ones.
\<close>

definition inRegistry :: "registry \<Rightarrow> string \<Rightarrow> bool" where
  "inRegistry reg iconName =
     (case map_of reg iconName of
        Some l \<Rightarrow> True
      | None \<Rightarrow> iconName \<in> set objectPrototypeKeys)"

text \<open>
  The \<^verbatim>\<open>Icon\<close> component. The read \<^verbatim>\<open>dynamicIconImports[name]\<close> happens only when
  \<^verbatim>\<open>iconCache[name]\<close> was \<^verbatim>\<open>undefined\<close>, hence for a name that \<^verbatim>\<open>Object.prototype\<close> does
  not have, and so it finds own properties of the registry only.
\<close>

definition Icon :: "registry \<Rightarrow> string \<Rightarrow> module_state \<Rightarrow> component \<times> module_state" where
  "Icon reg iconName m =
     (case cacheGet m iconName of
        Some LucideIcon \<Rightarrow> (LucideIcon, m)
      | None \<Rightarrow>
          (let LucideIcon = Dynamic (dynamicCalls m) (map_of reg iconName)
           in (LucideIcon,
               m\<lparr>iconCache := (iconCache m)(iconName \<mapsto> LucideIcon),
                 dynamicCalls := dynamicCalls m + 1\<rparr>)))"

text \<open>The effect that preloads the popular icons when a widget mounts.\<close>

definition popularNames :: "string list" where
  "popularNames = [''check'', ''x'', ''user'', ''settings'', ''home'', ''search'']"

definition preloadIcon :: "registry \<Rightarrow> string \<Rightarrow> module_state \<Rightarrow> module_state" where
  "preloadIcon reg iconName m =
     (if cacheGet m iconName = None
      then m\<lparr>iconCache :=
               (iconCache m)(iconName \<mapsto> Dynamic (dynamicCalls m) (map_of reg iconName)),
             dynamicCalls := dynamicCalls m + 1\<rparr>
      else m)"

definition preload :: "registry \<Rightarrow> module_state \<Rightarrow> module_state" where
  "preload reg m = fold (preloadIcon reg) (filter (inRegistry reg) popularNames) m"

text \<open>Everything that touches the cache: rendering an \<^verbatim>\<open>Icon\<close>, and mounting a widget.\<close>

datatype cache_op = Render string | Mount

fun cache_step :: "registry \<Rightarrow> cache_op \<Rightarrow> module_state \<Rightarrow> module_state" where
  "cache_step reg (Render iconName) m = snd (Icon reg iconName m)"
| "cache_step reg Mount m = preload reg m"

definition cache_run :: "registry \<Rightarrow> cache_op list \<Rightarrow> module_state \<Rightarrow> module_state" where
  "cache_run reg ops m = fold (cache_step reg) ops m"

section \<open>The collapsed field control\<close>

text \<open>
  The content of the square button that opens the picker: the selected icon when the
  stored name is truthy (a non-empty string), the grey word \<^verbatim>\<open>Icon\<close> otherwise.
\<close>

datatype collapsed =
    Placeholder string
  | IconElement component js_number string js_number bool

definition collapsedControl ::
    "registry \<Rightarrow> icon_config \<Rightarrow> module_state \<Rightarrow> collapsed \<times> module_state" where
  "collapsedControl reg v m =
     (if name v \<noteq> []
      then (case Icon reg (name v) m of
              (LucideIcon, m') \<Rightarrow>
                (IconElement LucideIcon (size_px v) (color v) (strokeWidth v)
                   (absoluteStrokeWidth v), m'))
      else (Placeholder ''Icon'', m))"

text \<open>
  What the user gets when React renders that content. React and \<^verbatim>\<open>next/dynamic\<close> are
  libraries the component is built on, not part of its source; this is their behaviour
  on the element types that \<open>Icon\<close> can return.
  \<^item> A lazy component shows the icon that its loader imports; built without a loader it
    shows nothing and raises nothing.
  \<^item> A member of \<^verbatim>\<open>Object.prototype\<close> is called as a function component, with the props
    as argument and no receiver. \<^verbatim>\<open>Object(props)\<close> returns the props object, which React
    refuses as a child; \<^verbatim>\<open>toString\<close> returns the text \<^verbatim>\<open>[object Undefined]\<close>, which is
    shown; the other methods convert their missing receiver to an object and throw a
    \<^verbatim>\<open>TypeError\<close>; \<^verbatim>\<open>Object.prototype\<close> itself, under \<^verbatim>\<open>__proto__\<close>, is no function and
    React refuses it as an element type. Each refusal and each throw is an error raised
    while rendering, which the component does not catch.
\<close>

datatype outcome = ShowsPlaceholder | ShowsIcon loader | ShowsNothing | ShowsText string | Faults

fun mountComponent :: "component \<Rightarrow> outcome" where
  "mountComponent (Dynamic k (Some l)) = ShowsIcon l"
| "mountComponent (Dynamic k None) = ShowsNothing"
| "mountComponent (ObjectPrototypeMember n) =
     (if n = ''toString'' then ShowsText ''[object Undefined]'' else Faults)"

definition collapsedOutcome :: "registry \<Rightarrow> icon_config \<Rightarrow> module_state \<Rightarrow> outcome" where
  "collapsedOutcome reg v m =
     (case fst (collapsedControl reg v m) of
        Placeholder s \<Rightarrow> ShowsPlaceholder
      | IconElement LucideIcon sz col sw absw \<Rightarrow> mountComponent LucideIcon)"

section \<open>The document and the outside click\<close>

text \<open>
  An element of the page, as far as \<^verbatim>\<open>querySelector\<close> and \<^verbatim>\<open>contains\<close> look at it:
  an identity and the tokens of its \<^verbatim>\<open>class\<close> attribute. The target of a mouse event is
  given by the identities of the target node and of its ancestors.
\<close>

record element =
  nodeId :: nat
  classNames :: "string list"

definition querySelector :: "string \<Rightarrow> element list \<Rightarrow> element option" where
  "querySelector cls doc = find (\<lambda>e. cls \<in> set (classNames e)) doc"

definition contains_node :: "element \<Rightarrow> nat list \<Rightarrow> bool" where
  "contains_node e target = (nodeId e \<in> set target)"

definition handleClickOutside :: "element list \<Rightarrow> nat list \<Rightarrow> widget \<Rightarrow> widget" where
  "handleClickOutside doc target w =
     (case (querySelector ''icon-picker-modal'' doc, querySelector ''icon-select-field'' doc) of
        (Some modalElement, Some fieldElement) \<Rightarrow>
          (if fieldIsFocused w \<and> \<not> contains_node modalElement target
                \<and> \<not> contains_node fieldElement target
           then w\<lparr>fieldIsFocused := False, search := ''''\<rparr>
           else w)
      | _ \<Rightarrow> w)"

text \<open>
  The \<^verbatim>\<open>className\<close> attributes in the JSX of the component, for a field that is required or
  not: the root, the label and its asterisk, and the two buttons at the foot of the
  configuration panel. No other element of the component carries a class.
\<close>

definition classAttributes :: "bool \<Rightarrow> widget \<Rightarrow> string list list" where
  "classAttributes required w =
     [[''w-full'', ''field-type'', ''text''], [''field-label'']]
     @ (if required then [[''required'']] else [])
     @ (if showConfig w
        then [[''icon-config-panel__reset''], [''icon-config-panel__confirm'']]
        else [])"

text \<open>A page whose only elements with a class are those of one instance of the widget.\<close>

definition widgetDocument :: "bool \<Rightarrow> widget \<Rightarrow> element list" where
  "widgetDocument required w =
     map (\<lambda>(i, cs). \<lparr>nodeId = i, classNames = cs\<rparr>) (enumerate 0 (classAttributes required w))"

section \<open>Events\<close>

text \<open>
  One constructor for each handler that the component attaches, for the
  \<^verbatim>\<open>mousedown\<close> listener on the document and for the timer of \<^verbatim>\<open>useDebounce\<close>.
\<close>

datatype event =
    ActivateField
  | ConfigButton
  | PanelClose
  | PanelChange config_change
  | PanelRestoreDefaults
  | PanelResetToDefaults
  | ConfirmClose
  | ConfirmCancel
  | ConfirmReset
  | DialogClose
  | SearchChange string
  | IconClick string
  | IconMouseOver string
  | IconMouseOut
  | Previous
  | Next
  | MouseDown "element list" "nat list"
  | DebounceElapsed

text \<open>
  When the 300 ms timer fires, the debounced text takes the value of the search text; the
  effect that depends on the debounced text sets the page to 0 when that text has changed.
\<close>

definition debounceElapsed :: "widget \<Rightarrow> widget" where
  "debounceElapsed w =
     (if debouncedSearch w = search w then w
      else w\<lparr>debouncedSearch := search w, page := 0\<rparr>)"

fun fire :: "registry \<Rightarrow> event \<Rightarrow> widget \<Rightarrow> widget" where
  "fire reg ActivateField w = w\<lparr>fieldIsFocused := True\<rparr>"
| "fire reg ConfigButton w = w\<lparr>showConfig := \<not> showConfig w\<rparr>"
| "fire reg PanelClose w = w\<lparr>showConfig := False\<rparr>"
| "fire reg (PanelChange ch) w = handleConfigChange ch w"
| "fire reg PanelRestoreDefaults w = w\<lparr>showResetConfirm := True\<rparr>"
| "fire reg PanelResetToDefaults w = handleResetToDefaults w"
| "fire reg ConfirmClose w = w\<lparr>showResetConfirm := False\<rparr>"
| "fire reg ConfirmCancel w = w\<lparr>showResetConfirm := False\<rparr>"
| "fire reg ConfirmReset w = handleResetToDefaults w"
| "fire reg DialogClose w = w\<lparr>fieldIsFocused := False, search := ''''\<rparr>"
| "fire reg (SearchChange s) w = w\<lparr>search := s\<rparr>"
| "fire reg (IconClick iconName) w = handleIconSelect iconName w"
| "fire reg (IconMouseOver iconName) w = w\<lparr>hoveredIcon := Some iconName\<rparr>"
| "fire reg IconMouseOut w = w\<lparr>hoveredIcon := None\<rparr>"
| "fire reg Previous w = w\<lparr>page := max 0 (page w - 1)\<rparr>"
| "fire reg Next w = w\<lparr>page := min (totalPages (visibleIcons reg w) - 1) (page w + 1)\<rparr>"
| "fire reg (MouseDown doc target) w = handleClickOutside doc target w"
| "fire reg DebounceElapsed w = debounceElapsed w"

text \<open>
  An event can occur in a state when the control that carries its handler is rendered
  there and is not disabled. The configuration panel offers changes of every field but
  the name.
\<close>

fun available :: "registry \<Rightarrow> event \<Rightarrow> widget \<Rightarrow> bool" where
  "available reg ActivateField w = True"
| "available reg ConfigButton w = True"
| "available reg PanelClose w = showConfig w"
| "available reg (PanelChange ch) w = (showConfig w \<and> field ch \<noteq> Name)"
| "available reg PanelRestoreDefaults w = showConfig w"
| "available reg PanelResetToDefaults w = showConfig w"
| "available reg ConfirmClose w = showResetConfirm w"
| "available reg ConfirmCancel w = showResetConfirm w"
| "available reg ConfirmReset w = showResetConfirm w"
| "available reg DialogClose w = fieldIsFocused w"
| "available reg (SearchChange s) w = fieldIsFocused w"
| "available reg (IconClick iconName) w =
     (fieldIsFocused w \<and> iconName \<in> set (paginatedIcons (visibleIcons reg w) (page w)))"
| "available reg (IconMouseOver iconName) w =
     (fieldIsFocused w \<and> iconName \<in> set (paginatedIcons (visibleIcons reg w) (page w)))"
| "available reg IconMouseOut w =
     (fieldIsFocused w \<and> paginatedIcons (visibleIcons reg w) (page w) \<noteq> [])"
| "available reg Previous w =
     (fieldIsFocused w \<and> 1 < totalPages (visibleIcons reg w) \<and> page w \<noteq> 0)"
| "available reg Next w =
     (fieldIsFocused w \<and> 1 < totalPages (visibleIcons reg w)
        \<and> page w \<noteq> totalPages (visibleIcons reg w) - 1)"
| "available reg (MouseDown doc target) w = True"
| "available reg DebounceElapsed w = True"

definition step :: "registry \<Rightarrow> event \<Rightarrow> widget \<Rightarrow> widget" where
  "step reg e w = (if available reg e w then fire reg e w else w)"

definition run :: "registry \<Rightarrow> event list \<Rightarrow> widget \<Rightarrow> widget" where
  "run reg es w = fold (step reg) es w"

text \<open>Two registries for the examples: a handful of icons, and sixty-one of them.\<close>

definition fewIcons :: registry where
  "fewIcons =
     [(''x'', Import ''x''), (''home'', Import ''home''), (''house'', Import ''house''),
      (''check'', Import ''check''), (''settings'', Import ''settings'')]"

definition manyIcons :: registry where
  "manyIcons =
     map (\<lambda>i. (replicate (Suc i) CHR ''a'', Import (replicate (Suc i) CHR ''a''))) [0..<61]"

section \<open>Properties of the value binding\<close>

text \<open>
  C1. Whatever the current effective configuration (stored, or the default when the host
  has none) and whatever the icon name, \<open>handleIconSelect\<close> calls the setter once with a
  complete configuration whose name is the selected one and whose size, colour, stroke
  width and absolute-stroke flag are those of the prior effective value.
\<close>

theorem selectIcon_replaces_only_name:
  "fieldValue (handleIconSelect n w) = Some ((currentValue w)\<lparr>name := n\<rparr>) \<and>
   name (currentValue (handleIconSelect n w)) = n \<and>
   size_px (currentValue (handleIconSelect n w)) = size_px (currentValue w) \<and>
   color (currentValue (handleIconSelect n w)) = color (currentValue w) \<and>
   strokeWidth (currentValue (handleIconSelect n w)) = strokeWidth (currentValue w) \<and>
   absoluteStrokeWidth (currentValue (handleIconSelect n w)) =
     absoluteStrokeWidth (currentValue w) \<and>
   setValueCalls (handleIconSelect n w) = setValueCalls w + 1"
  by (simp add: handleIconSelect_def setValue_def currentValue_def)

theorem selectIcon_replaces_only_name_witness:
  "fieldValue (handleIconSelect ''home'' (initial None)) =
     Some \<lparr>name = ''home'', size_px = Num 24, color = ''currentColor'',
           strokeWidth = Num 2, absoluteStrokeWidth = False\<rparr>"
proof -
  from selectIcon_replaces_only_name [of "''home''" "initial None"]
  have "fieldValue (handleIconSelect ''home'' (initial None)) =
        Some ((currentValue (initial None))\<lparr>name := ''home''\<rparr>)"
    by (rule conjunct1)
  moreover have "(currentValue (initial None))\<lparr>name := ''home''\<rparr> =
      \<lparr>name = ''home'', size_px = Num 24, color = ''currentColor'',
       strokeWidth = Num 2, absoluteStrokeWidth = False\<rparr>"
    by (simp add: currentValue_def initial_def DEFAULT_ICON_CONFIG_def)
  ultimately show ?thesis
    by simp
qed

text \<open>
  C2. Whatever the current effective configuration, \<open>handleResetToDefaults\<close> writes the
  configuration that keeps the prior name and has size 24, colour \<^verbatim>\<open>currentColor\<close>,
  stroke width 2 and the absolute-stroke flag off.
\<close>

theorem resetToDefaults_keeps_name:
  "fieldValue (handleResetToDefaults w) =
     Some \<lparr>name = name (currentValue w), size_px = Num 24, color = ''currentColor'',
           strokeWidth = Num 2, absoluteStrokeWidth = False\<rparr> \<and>
   setValueCalls (handleResetToDefaults w) = setValueCalls w + 1"
  by (simp add: handleResetToDefaults_def setValue_def DEFAULT_ICON_CONFIG_def)

theorem resetToDefaults_keeps_name_witness:
  "fieldValue (handleResetToDefaults
      (initial (Some \<lparr>name = ''home'', size_px = Num 64, color = ''#ff0000'',
                      strokeWidth = Num 3, absoluteStrokeWidth = True\<rparr>))) =
     Some \<lparr>name = ''home'', size_px = Num 24, color = ''currentColor'',
           strokeWidth = Num 2, absoluteStrokeWidth = False\<rparr>"
proof -
  let ?w = "initial (Some \<lparr>name = ''home'', size_px = Num 64, color = ''#ff0000'',
                           strokeWidth = Num 3, absoluteStrokeWidth = True\<rparr>)"
  from resetToDefaults_keeps_name [of ?w]
  have "fieldValue (handleResetToDefaults ?w) =
        Some \<lparr>name = name (currentValue ?w), size_px = Num 24, color = ''currentColor'',
              strokeWidth = Num 2, absoluteStrokeWidth = False\<rparr>"
    by (rule conjunct1)
  moreover have "name (currentValue ?w) = ''home''"
    by (simp add: currentValue_def initial_def)
  ultimately show ?thesis
    by simp
qed

text \<open>
  C3. Whatever the current effective configuration, the field key and the new value,
  \<open>handleConfigChange\<close> calls the setter once with a configuration in which that field
  holds the new value and every other field is as in the prior effective value.
\<close>

theorem setConfigField_frame:
  "get_field (field ch) (currentValue (handleConfigChange ch w)) = newValue ch \<and>
   (\<forall>k. k \<noteq> field ch \<longrightarrow>
      get_field k (currentValue (handleConfigChange ch w)) = get_field k (currentValue w)) \<and>
   fieldValue (handleConfigChange ch w) = Some (currentValue (handleConfigChange ch w)) \<and>
   setValueCalls (handleConfigChange ch w) = setValueCalls w + 1"
proof -
  have upd: "currentValue (handleConfigChange ch w) = spread_with (currentValue w) ch"
    by (simp add: handleConfigChange_def setValue_def currentValue_def)
  have hit: "get_field (field ch) (spread_with c ch) = newValue ch" for c
    by (cases ch) simp_all
  have frame: "k \<noteq> field ch \<Longrightarrow> get_field k (spread_with c ch) = get_field k c" for k c
    by (cases ch; cases k) simp_all
  show ?thesis
    using upd hit frame by (simp add: handleConfigChange_def setValue_def)
qed

theorem setConfigField_frame_witness:
  "Color \<noteq> field (SetSize (Num 40)) \<and>
   get_field Size (currentValue (handleConfigChange (SetSize (Num 40)) (initial None))) =
     JNumber (Num 40) \<and>
   get_field Color (currentValue (handleConfigChange (SetSize (Num 40)) (initial None))) =
     JString ''currentColor''"
proof -
  note frame = setConfigField_frame [of "SetSize (Num 40)" "initial None"]
  have other: "Color \<noteq> field (SetSize (Num 40))"
    by simp
  from frame other
  have "get_field Color (currentValue (handleConfigChange (SetSize (Num 40)) (initial None))) =
        get_field Color (currentValue (initial None))"
    by blast
  moreover have "get_field Color (currentValue (initial None)) = JString ''currentColor''"
    by (simp add: currentValue_def initial_def DEFAULT_ICON_CONFIG_def)
  moreover from frame
  have "get_field (field (SetSize (Num 40)))
          (currentValue (handleConfigChange (SetSize (Num 40)) (initial None))) =
        newValue (SetSize (Num 40))"
    by blast
  ultimately show ?thesis
    by simp
qed

section \<open>Properties of search and pagination\<close>

lemma str_includes_iff: "str_includes hay needle \<longleftrightarrow> (\<exists>ps ss. hay = ps @ needle @ ss)"
proof (induction hay)
  case Nil
  then show ?case by auto
next
  case (Cons c cs)
  show ?case
  proof
    assume "str_includes (c # cs) needle"
    then consider "prefix needle (c # cs)" | "str_includes cs needle"
      by auto
    then show "\<exists>ps ss. c # cs = ps @ needle @ ss"
    proof cases
      case 1
      then obtain ss where "c # cs = needle @ ss"
        by (auto simp: prefix_def)
      then have "c # cs = [] @ needle @ ss"
        by simp
      then show ?thesis
        by blast
    next
      case 2
      with Cons.IH obtain ps ss where "cs = ps @ needle @ ss"
        by blast
      then have "c # cs = (c # ps) @ needle @ ss"
        by simp
      then show ?thesis
        by blast
    qed
  next
    assume "\<exists>ps ss. c # cs = ps @ needle @ ss"
    then obtain ps ss where eq: "c # cs = ps @ needle @ ss"
      by blast
    show "str_includes (c # cs) needle"
    proof (cases ps)
      case Nil
      with eq have "prefix needle (c # cs)"
        by (simp add: prefix_def)
      then show ?thesis
        by simp
    next
      case (Cons p ps')
      with eq have "cs = ps' @ needle @ ss"
        by simp
      with Cons.IH have "str_includes cs needle"
        by blast
      then show ?thesis
        by simp
    qed
  qed
qed

lemma str_includes_empty: "str_includes hay []"
proof -
  have "hay = [] @ [] @ hay"
    by simp
  then show ?thesis
    unfolding str_includes_iff by blast
qed

lemma toLowerCase_empty: "toLowerCase [] = []"
  by (simp add: toLowerCase_def)

lemma filteredIcons_filter:
  "filteredIcons icons s =
   filter (\<lambda>n. \<exists>ps ss. toLowerCase n = ps @ toLowerCase s @ ss) icons"
proof (cases "s = []")
  case True
  have "str_includes (toLowerCase n) (toLowerCase [])" for n
    by (simp add: toLowerCase_empty str_includes_empty)
  then have "\<exists>ps ss. toLowerCase n = ps @ toLowerCase [] @ ss" for n
    by (simp only: str_includes_iff)
  with True show ?thesis
    by (simp add: filteredIcons_def)
next
  case False
  then show ?thesis
    by (simp add: filteredIcons_def str_includes_iff)
qed

lemma set_allIcons: "set (allIcons reg) = fst ` set reg"
  by (simp add: allIcons_def)

text \<open>
  C5. For every debounced search text, the filtered list is the catalog restricted, in the
  catalog's order, to the names whose lower-cased form contains the lower-cased search
  text as a substring: a name is in the filtered list exactly when it is a key of the
  registry and has that property. For the empty search text the filtered list is the
  whole catalog, which is sorted.
\<close>

theorem filteredIcons_substring:
  "filteredIcons (allIcons reg) s =
     filter (\<lambda>n. \<exists>ps ss. toLowerCase n = ps @ toLowerCase s @ ss) (allIcons reg) \<and>
   (n \<in> set (filteredIcons (allIcons reg) s) \<longleftrightarrow>
      n \<in> fst ` set reg \<and> (\<exists>ps ss. toLowerCase n = ps @ toLowerCase s @ ss)) \<and>
   filteredIcons (allIcons reg) [] = allIcons reg \<and>
   sorted (allIcons reg)"
proof -
  have "n \<in> set (filteredIcons (allIcons reg) s) \<longleftrightarrow>
        n \<in> fst ` set reg \<and> (\<exists>ps ss. toLowerCase n = ps @ toLowerCase s @ ss)"
    by (simp only: filteredIcons_filter set_filter set_allIcons mem_Collect_eq)
  moreover have "filteredIcons (allIcons reg) [] = allIcons reg"
    by (simp add: filteredIcons_def)
  moreover have "sorted (allIcons reg)"
    by (simp add: allIcons_def)
  ultimately show ?thesis
    using filteredIcons_filter by blast
qed

theorem filteredIcons_substring_witness:
  "''home'' \<in> set (filteredIcons
      (allIcons fewIcons)
      ''HO'')"
proof -
  have "toLowerCase ''home'' = [] @ toLowerCase ''HO'' @ ''me''"
    by (simp add: toLowerCase_def toLowerCase_char_def)
  then have "\<exists>ps ss. toLowerCase ''home'' = ps @ toLowerCase ''HO'' @ ss"
    by blast
  moreover have "''home'' \<in> fst ` set fewIcons"
    by (simp add: fewIcons_def)
  ultimately show ?thesis
    using filteredIcons_substring [of fewIcons "''HO''" "''home''"] by blast
qed

lemma page_slice: "paginatedIcons xs (int p) = take 60 (drop (p * 60) xs)"
proof (cases "p * 60 \<le> length xs")
  case True
  then have "min (int p * 60) (int (length xs)) = int (p * 60)"
    by simp
  moreover have "nat (min ((int p + 1) * 60) (int (length xs)) - int (p * 60)) =
                 min 60 (length xs - p * 60)"
    using True by (simp add: min_def) linarith
  moreover have "nat (int p * 60) = p * 60"
    by (simp add: nat_mult_distrib)
  moreover have "take (min 60 (length xs - p * 60)) (drop (p * 60) xs) =
                 take 60 (drop (p * 60) xs)"
    by (simp add: min_def)
  ultimately show ?thesis
    by (simp add: paginatedIcons_def slice_def ICONS_PER_PAGE_def Let_def min.commute)
next
  case False
  then have "min (int p * 60) (int (length xs)) = int (length xs)"
    by simp
  with False show ?thesis
    by (simp add: paginatedIcons_def slice_def ICONS_PER_PAGE_def Let_def)
qed

lemma length_page_le: "length (paginatedIcons xs p) \<le> 60"
  by (simp add: paginatedIcons_def slice_def ICONS_PER_PAGE_def Let_def) linarith


lemma totalPages_bounds:
  shows "int (length xs) \<le> totalPages xs * 60"
    and "(totalPages xs - 1) * 60 < int (length xs)"
proof -
  let ?k = "totalPages xs"
  have k: "?k = \<lceil>real (length xs) / real_of_int 60\<rceil>"
    by (simp add: totalPages_def ICONS_PER_PAGE_def)
  have "real (length xs) / real_of_int 60 \<le> of_int ?k"
    unfolding k by (rule le_of_int_ceiling)
  then have "real (length xs) \<le> of_int ?k * 60"
    by simp
  then have "real_of_int (int (length xs)) \<le> real_of_int (?k * 60)"
    by simp
  then show "int (length xs) \<le> ?k * 60"
    by (simp only: of_int_le_iff)
  have "of_int ?k - 1 < real (length xs) / real_of_int 60"
    unfolding k by linarith
  then have "(of_int ?k - 1) * 60 < real (length xs)"
    by simp
  then have "real_of_int ((?k - 1) * 60) < real_of_int (int (length xs))"
    by simp
  then show "(?k - 1) * 60 < int (length xs)"
    by (simp only: of_int_less_iff)
qed

lemma concat_pages:
  "concat (map (\<lambda>p. take n (drop (p * n) xs)) [0..<k]) = take (k * n) xs"
proof (induction k)
  case 0
  then show ?case
    by simp
next
  case (Suc k)
  have "take (k * n + n) xs = take (k * n) xs @ take n (drop (k * n) xs)"
    by (rule take_add)
  moreover have "Suc k * n = k * n + n"
    by simp
  ultimately show ?case
    using Suc by (simp add: add.commute)
qed

text \<open>
  C6. With 60 icons per page and \<open>totalPages\<close> the ceiling of the filtered count over 60,
  the pages 0 to \<open>totalPages - 1\<close>, concatenated in order, are the filtered list itself;
  every page before the last holds exactly 60 names, no page holds more than 60, and the
  last page is not empty.
\<close>

theorem pagination_total:
  "concat (map (\<lambda>p. paginatedIcons filtered (int p)) [0..<nat (totalPages filtered)]) = filtered \<and>
   (\<forall>p. 0 \<le> p \<and> p < totalPages filtered - 1 \<longrightarrow>
        length (paginatedIcons filtered p) = 60) \<and>
   (\<forall>p. length (paginatedIcons filtered p) \<le> 60) \<and>
   (0 < totalPages filtered \<longrightarrow> paginatedIcons filtered (totalPages filtered - 1) \<noteq> [])"
proof -
  let ?k = "totalPages filtered"
  have enough: "length filtered \<le> nat ?k * 60"
    using totalPages_bounds(1) [of filtered] by linarith
  have "concat (map (\<lambda>p. paginatedIcons filtered (int p)) [0..<nat ?k]) =
        take (nat ?k * 60) filtered"
    by (simp only: page_slice concat_pages)
  with enough have whole:
    "concat (map (\<lambda>p. paginatedIcons filtered (int p)) [0..<nat ?k]) = filtered"
    by simp
  have full: "length (paginatedIcons filtered p) = 60" if "0 \<le> p" "p < ?k - 1" for p
  proof -
    from that(1) obtain q where q: "p = int q"
      using zero_le_imp_eq_int by blast
    from that(2) have "(p + 1) * 60 \<le> (?k - 1) * 60"
      by simp
    with totalPages_bounds(2) [of filtered]
    have "(p + 1) * 60 \<le> int (length filtered)"
      by linarith
    then have "int (q * 60 + 60) \<le> int (length filtered)"
      by (simp add: q algebra_simps)
    then have "q * 60 + 60 \<le> length filtered"
      by (simp only: of_nat_le_iff)
    then show ?thesis
      by (simp add: q page_slice)
  qed
  have last_page: "paginatedIcons filtered (?k - 1) \<noteq> []" if "0 < ?k"
  proof -
    from that obtain q where q: "?k - 1 = int q"
      using zero_le_imp_eq_int [of "?k - 1"] by auto
    from totalPages_bounds(2) [of filtered]
    have "int (q * 60) < int (length filtered)"
      by (simp add: q)
    then have "q * 60 < length filtered"
      by (simp only: of_nat_less_iff)
    then show ?thesis
      by (simp add: q page_slice)
  qed
  from whole full last_page length_page_le show ?thesis
    by blast
qed

theorem pagination_total_witness:
  "(0::int) \<le> 0 \<and> 0 < totalPages (replicate 61 ''a'') - 1 \<and>
   length (paginatedIcons (replicate 61 ''a'') 0) = 60"
proof -
  have pages: "totalPages (replicate 61 ''a'') = 2"
    by (simp add: totalPages_def ICONS_PER_PAGE_def)
  from pagination_total [of "replicate 61 ''a''"]
  have "(0::int) \<le> 0 \<and> 0 < totalPages (replicate 61 ''a'') - 1 \<longrightarrow>
        length (paginatedIcons (replicate 61 ''a'') 0) = 60"
    by blast
  with pages show ?thesis
    by simp
qed

section \<open>Properties of the icon cache\<close>

lemma cacheGet_own: "iconCache m n = Some h \<Longrightarrow> cacheGet m n = Some h"
  by (simp add: cacheGet_def)

lemma cacheGet_None: "cacheGet m n = None \<Longrightarrow> iconCache m n = None"
  by (simp add: cacheGet_def split: option.splits if_splits)

lemma cacheGet_fresh:
  "n \<notin> set objectPrototypeKeys \<Longrightarrow> iconCache m n = None \<Longrightarrow> cacheGet m n = None"
  by (simp add: cacheGet_def)

lemma cacheGet_inherited:
  "n \<in> set objectPrototypeKeys \<Longrightarrow> iconCache m n = None \<Longrightarrow>
   cacheGet m n = Some (ObjectPrototypeMember n)"
  by (simp add: cacheGet_def)

lemma Icon_hit: "cacheGet m n = Some h \<Longrightarrow> Icon reg n m = (h, m)"
  by (simp add: Icon_def)

lemma Icon_miss:
  "cacheGet m n = None \<Longrightarrow>
   iconCache (snd (Icon reg n m)) n = Some (fst (Icon reg n m)) \<and>
   fst (Icon reg n m) = Dynamic (dynamicCalls m) (map_of reg n) \<and>
   dynamicCalls (snd (Icon reg n m)) = dynamicCalls m + 1"
  by (simp add: Icon_def Let_def)

lemma Icon_keeps:
  "iconCache m n = Some h \<Longrightarrow> iconCache (snd (Icon reg n' m)) n = Some h"
proof (cases "cacheGet m n'")
  case None
  assume own: "iconCache m n = Some h"
  from None have "iconCache m n' = None"
    by (rule cacheGet_None)
  with own have "n \<noteq> n'"
    by auto
  with own None show ?thesis
    by (simp add: Icon_def Let_def)
next
  case (Some c)
  assume "iconCache m n = Some h"
  with Some show ?thesis
    by (simp add: Icon_def)
qed

lemma preloadIcon_keeps:
  "iconCache m n = Some h \<Longrightarrow> iconCache (preloadIcon reg n' m) n = Some h"
proof (cases "cacheGet m n'")
  case None
  assume own: "iconCache m n = Some h"
  from None have "iconCache m n' = None"
    by (rule cacheGet_None)
  with own have "n \<noteq> n'"
    by auto
  with own None show ?thesis
    by (simp add: preloadIcon_def)
next
  case (Some c)
  assume "iconCache m n = Some h"
  with Some show ?thesis
    by (simp add: preloadIcon_def)
qed

lemma fold_preloadIcon_keeps:
  "iconCache m n = Some h \<Longrightarrow> iconCache (fold (preloadIcon reg) ns m) n = Some h"
proof (induction ns arbitrary: m)
  case Nil
  then show ?case by simp
next
  case (Cons n' ns)
  from Cons.prems have "iconCache (preloadIcon reg n' m) n = Some h"
    by (rule preloadIcon_keeps)
  then show ?case
    using Cons.IH by simp
qed

lemma preload_keeps:
  "iconCache m n = Some h \<Longrightarrow> iconCache (preload reg m) n = Some h"
  unfolding preload_def by (rule fold_preloadIcon_keeps)

lemma cache_step_keeps:
  "iconCache m n = Some h \<Longrightarrow> iconCache (cache_step reg op m) n = Some h"
  by (cases op) (simp_all add: Icon_keeps preload_keeps)

lemma cache_run_keeps:
  "iconCache m n = Some h \<Longrightarrow> iconCache (cache_run reg ops m) n = Some h"
proof (induction ops arbitrary: m)
  case Nil
  then show ?case by (simp add: cache_run_def)
next
  case (Cons op ops)
  from Cons.prems have "iconCache (cache_step reg op m) n = Some h"
    by (rule cache_step_keeps)
  then have "iconCache (cache_run reg ops (cache_step reg op m)) n = Some h"
    by (rule Cons.IH)
  then show ?case
    by (simp add: cache_run_def)
qed

text \<open>
  What holds of the cache for every name that \<^verbatim>\<open>Object.prototype\<close> does not have: the
  first \<open>Icon\<close> calls \<^verbatim>\<open>dynamic\<close> once and stores the component under the name, and a
  later \<open>Icon\<close>, after any sequence of renderings and mounts, returns that component and
  leaves the module as it is. An entry, once stored, is never removed or replaced
  (\<open>cache_run_keeps\<close>), and the preload keeps every entry (\<open>preload_keeps\<close>).
\<close>

lemma first_Icon_stores:
  assumes "n \<notin> set objectPrototypeKeys" and "iconCache m n = None"
  shows "iconCache (snd (Icon reg n m)) n = Some (fst (Icon reg n m))"
    and "dynamicCalls (snd (Icon reg n m)) = dynamicCalls m + 1"
  using Icon_miss [OF cacheGet_fresh [OF assms]] by simp_all

lemma Icon_stores:
  assumes "n \<notin> set objectPrototypeKeys"
  shows "iconCache (snd (Icon reg n m)) n = Some (fst (Icon reg n m))"
proof (cases "iconCache m n")
  case None
  with assms show ?thesis
    by (rule first_Icon_stores(1))
next
  case (Some h)
  then have "Icon reg n m = (h, m)"
    by (intro Icon_hit cacheGet_own)
  with Some show ?thesis
    by simp
qed

lemma later_Icon_same:
  assumes "n \<notin> set objectPrototypeKeys"
  shows "Icon reg n (cache_run reg ops (snd (Icon reg n m))) =
         (fst (Icon reg n m), cache_run reg ops (snd (Icon reg n m)))"
proof -
  have "iconCache (cache_run reg ops (snd (Icon reg n m))) n = Some (fst (Icon reg n m))"
    using Icon_stores [OF assms] by (rule cache_run_keeps)
  then show ?thesis
    by (intro Icon_hit cacheGet_own)
qed

text \<open>
  C10. The claim is that the first resolve of a name stores a handle under that name.
  The guard \<^verbatim>\<open>!iconCache[name]\<close> reads through \<^verbatim>\<open>Object.prototype\<close>: for the name
  \<^verbatim>\<open>constructor\<close> and an empty cache, the read gives the inherited function \<^verbatim>\<open>Object\<close>, so
  \<open>Icon\<close> takes it for a cached component, makes no call of \<^verbatim>\<open>dynamic\<close> and stores
  nothing; the cache still has no entry for the name afterwards.
\<close>

theorem inherited_name_never_cached:
  "iconCache emptyModule ''constructor'' = None \<and>
   Icon fewIcons ''constructor'' emptyModule =
     (ObjectPrototypeMember ''constructor'', emptyModule) \<and>
   iconCache (snd (Icon fewIcons ''constructor'' emptyModule)) ''constructor'' = None \<and>
   dynamicCalls (snd (Icon fewIcons ''constructor'' emptyModule)) = 0"
  by (simp add: Icon_def cacheGet_def objectPrototypeKeys_def emptyModule_def)

section \<open>Properties of the rendering and of the interaction\<close>

subsection \<open>The collapsed control\<close>

lemma collapsedControl_placeholder_iff:
  "fst (collapsedControl reg v m) = Placeholder ''Icon'' \<longleftrightarrow> name v = []"
  by (simp add: collapsedControl_def split: prod.splits)

lemma collapsedControl_icon:
  "name v \<noteq> [] \<Longrightarrow>
   fst (collapsedControl reg v m) =
     IconElement (fst (Icon reg (name v) m)) (size_px v) (color v) (strokeWidth v)
       (absoluteStrokeWidth v)"
  by (simp add: collapsedControl_def split: prod.splits)

text \<open>
  For a name that neither the registry nor \<^verbatim>\<open>Object.prototype\<close> has, and that is not in
  the cache yet, the control degrades without a fault: the placeholder for the empty
  name, an empty box for any other.
\<close>

lemma collapsedOutcome_unregistered:
  assumes "map_of reg (name v) = None" and "name v \<notin> set objectPrototypeKeys"
    and "iconCache m (name v) = None"
  shows "collapsedOutcome reg v m = (if name v = [] then ShowsPlaceholder else ShowsNothing)"
proof (cases "name v = []")
  case True
  then show ?thesis
    by (simp add: collapsedOutcome_def collapsedControl_def)
next
  case False
  from assms(2,3) have "cacheGet m (name v) = None"
    by (rule cacheGet_fresh)
  then have "fst (Icon reg (name v) m) = Dynamic (dynamicCalls m) (map_of reg (name v))"
    using Icon_miss by blast
  with False assms(1) show ?thesis
    by (simp add: collapsedOutcome_def collapsedControl_icon)
qed

text \<open>
  C4. The claim is that a stored configuration whose name is not in the registry renders
  the collapsed control as the placeholder or as an empty state, and raises no fault. For
  the stored name \<^verbatim>\<open>constructor\<close>, which the registry does not have, the name is truthy,
  so the control renders an \<^verbatim>\<open>Icon\<close>; \<^verbatim>\<open>iconCache[name]\<close> is the inherited function
  \<^verbatim>\<open>Object\<close>, which \<open>Icon\<close> returns as the component to render, and rendering it raises
  an error.
\<close>

theorem collapsed_control_inherited_name:
  "map_of fewIcons ''constructor'' = None \<and>
   fst (collapsedControl fewIcons (DEFAULT_ICON_CONFIG\<lparr>name := ''constructor''\<rparr>)
          emptyModule) =
     IconElement (ObjectPrototypeMember ''constructor'') (Num 24) ''currentColor'' (Num 2)
       False \<and>
   collapsedOutcome fewIcons (DEFAULT_ICON_CONFIG\<lparr>name := ''constructor''\<rparr>) emptyModule =
     Faults"
  by (simp add: collapsedOutcome_def collapsedControl_def Icon_def cacheGet_def
      objectPrototypeKeys_def fewIcons_def emptyModule_def DEFAULT_ICON_CONFIG_def)

subsection \<open>The click outside the picker\<close>

lemma querySelector_widgetDocument:
  "querySelector ''icon-picker-modal'' (widgetDocument required w) = None"
  "querySelector ''icon-select-field'' (widgetDocument required w) = None"
  by (simp_all add: querySelector_def widgetDocument_def classAttributes_def)

lemma handleClickOutside_no_modal:
  "querySelector ''icon-picker-modal'' doc = None \<Longrightarrow> handleClickOutside doc target w = w"
  by (simp add: handleClickOutside_def)

lemma handleClickOutside_closed:
  "\<not> fieldIsFocused w \<Longrightarrow> handleClickOutside doc target w = w"
  by (simp add: handleClickOutside_def split: option.splits)

text \<open>
  C8. The claim is that a mouse-down outside the picker dialog and outside the field
  control closes an open picker and clears the search text. The handler looks the two
  regions up by the classes \<^verbatim>\<open>icon-picker-modal\<close> and \<^verbatim>\<open>icon-select-field\<close>, which no
  element of the component carries: on a page that holds this widget, with the picker
  open and the search text \<^verbatim>\<open>ho\<close>, a mouse-down on a node outside the widget leaves the
  picker open and the search text in place.
\<close>

theorem outside_click_leaves_picker_open:
  "fieldIsFocused (run fewIcons [ActivateField, SearchChange ''ho''] (initial None)) \<and>
   search (run fewIcons [ActivateField, SearchChange ''ho''] (initial None)) = ''ho'' \<and>
   run fewIcons
     [ActivateField, SearchChange ''ho'',
      MouseDown (widgetDocument False
                   (run fewIcons [ActivateField, SearchChange ''ho''] (initial None))) [99]]
     (initial None) =
   run fewIcons [ActivateField, SearchChange ''ho''] (initial None)"
  by (simp add: run_def step_def initial_def handleClickOutside_def querySelector_def
      widgetDocument_def classAttributes_def)

subsection \<open>The reset of the configuration\<close>

lemma confirm_dialog_resolution:
  "fieldValue (fire reg ConfirmCancel w) = fieldValue w"
  "setValueCalls (fire reg ConfirmCancel w) = setValueCalls w"
  "\<not> showResetConfirm (fire reg ConfirmCancel w)"
  "fire reg ConfirmReset w = handleResetToDefaults w"
  "\<not> showResetConfirm (fire reg ConfirmReset w)"
  by (simp_all add: handleResetToDefaults_def setValue_def)

lemma confirmation_entered_from_panel:
  "\<not> showResetConfirm w \<Longrightarrow> showResetConfirm (fire reg e w) \<Longrightarrow> e = PanelRestoreDefaults"
  by (cases e)
     (auto simp: handleConfigChange_def handleResetToDefaults_def handleIconSelect_def
        setValue_def handleClickOutside_def debounceElapsed_def
        split: option.splits if_splits)

text \<open>
  C7. The claim is that the reset runs only while a confirmation is pending. The
  configuration panel carries, next to the button that opens the confirmation, a second
  button whose handler is \<open>handleResetToDefaults\<close> itself: with the panel open and no
  confirmation pending that button is rendered, and pressing it writes the defaults over
  the stored size 64, colour \<^verbatim>\<open>#ff0000\<close>, stroke width 3 and absolute-stroke flag.
\<close>

theorem reset_without_confirmation:
  "available fewIcons PanelResetToDefaults
     (run fewIcons [ConfigButton]
        (initial (Some \<lparr>name = ''home'', size_px = Num 64, color = ''#ff0000'',
                        strokeWidth = Num 3, absoluteStrokeWidth = True\<rparr>))) \<and>
   \<not> showResetConfirm
     (run fewIcons [ConfigButton]
        (initial (Some \<lparr>name = ''home'', size_px = Num 64, color = ''#ff0000'',
                        strokeWidth = Num 3, absoluteStrokeWidth = True\<rparr>))) \<and>
   fieldValue
     (run fewIcons [ConfigButton, PanelResetToDefaults]
        (initial (Some \<lparr>name = ''home'', size_px = Num 64, color = ''#ff0000'',
                        strokeWidth = Num 3, absoluteStrokeWidth = True\<rparr>))) =
     Some \<lparr>name = ''home'', size_px = Num 24, color = ''currentColor'',
           strokeWidth = Num 2, absoluteStrokeWidth = False\<rparr> \<and>
   setValueCalls
     (run fewIcons [ConfigButton, PanelResetToDefaults]
        (initial (Some \<lparr>name = ''home'', size_px = Num 64, color = ''#ff0000'',
                        strokeWidth = Num 3, absoluteStrokeWidth = True\<rparr>))) = 1"
  by (simp add: run_def step_def initial_def handleResetToDefaults_def setValue_def
      currentValue_def DEFAULT_ICON_CONFIG_def)


subsection \<open>Closing the picker\<close>

lemma length_allIcons: "length (allIcons reg) = length reg"
  by (simp add: allIcons_def)

lemma length_manyIcons: "length manyIcons = 61"
  by (simp add: manyIcons_def)

lemma totalPages_manyIcons: "totalPages (filteredIcons (allIcons manyIcons) []) = 2"
  by (simp add: filteredIcons_def totalPages_def ICONS_PER_PAGE_def length_allIcons
      length_manyIcons)

lemma browse_second_page:
  "run manyIcons [ActivateField, Next] (initial None) =
   (initial None)\<lparr>fieldIsFocused := True, page := 1\<rparr>"
  by (simp add: run_def step_def initial_def visibleIcons_def totalPages_manyIcons)

text \<open>
  C9, as stated, fails: after paging to the second page of a catalog of 61 icons, closing
  the picker with its close button clears the search text but leaves the page index at 1,
  and it is still 1 when the debounce timer has fired and the picker is opened again.
\<close>

theorem page_kept_across_close:
  "fieldIsFocused (run manyIcons [ActivateField, Next] (initial None)) \<and>
   \<not> fieldIsFocused (run manyIcons [ActivateField, Next, DialogClose] (initial None)) \<and>
   search (run manyIcons [ActivateField, Next, DialogClose] (initial None)) = [] \<and>
   page (run manyIcons [ActivateField, Next, DialogClose] (initial None)) = 1 \<and>
   page (run manyIcons [ActivateField, Next, DialogClose, DebounceElapsed, ActivateField]
           (initial None)) = 1"
  by (simp add: run_def step_def initial_def visibleIcons_def totalPages_manyIcons
      debounceElapsed_def)

text \<open>
  C9, amended. Every transition that closes the picker (the close button, the selection
  of an icon, an outside click whose handler closes it) clears the search text and leaves
  the page index as it was; the close button and the selection of an icon always close
  the picker. No event changes the page index but \<open>Previous\<close>, \<open>Next\<close> and the firing of
  the debounce timer: \<open>Previous\<close> sets it to the larger of 0 and the page before, \<open>Next\<close>
  to the smaller of the last page and the page after, and the timer sets it to 0 when the
  search text differs from the debounced one and leaves it as it is otherwise.
\<close>

theorem closing_clears_search_keeps_page:
  "(fieldIsFocused w \<and> \<not> fieldIsFocused (fire reg e w) \<longrightarrow>
      search (fire reg e w) = [] \<and> page (fire reg e w) = page w) \<and>
   \<not> fieldIsFocused (fire reg DialogClose w) \<and>
   \<not> fieldIsFocused (fire reg (IconClick n) w) \<and>
   (page (fire reg e' w) \<noteq> page w \<longrightarrow> e' = Previous \<or> e' = Next \<or> e' = DebounceElapsed) \<and>
   page (fire reg Previous w) = max 0 (page w - 1) \<and>
   page (fire reg Next w) = min (totalPages (visibleIcons reg w) - 1) (page w + 1) \<and>
   page (fire reg DebounceElapsed w) = (if debouncedSearch w = search w then page w else 0)"
proof -
  have closing: "search (fire reg e w) = [] \<and> page (fire reg e w) = page w"
    if "fieldIsFocused w" "\<not> fieldIsFocused (fire reg e w)"
    using that
    by (cases e)
       (auto simp: handleConfigChange_def handleResetToDefaults_def handleIconSelect_def
          setValue_def handleClickOutside_def debounceElapsed_def
          split: option.splits if_splits)
  have paging: "e' = Previous \<or> e' = Next \<or> e' = DebounceElapsed"
    if "page (fire reg e' w) \<noteq> page w"
    using that
    by (cases e')
       (auto simp: handleConfigChange_def handleResetToDefaults_def handleIconSelect_def
          setValue_def handleClickOutside_def
          split: option.splits if_splits)
  have "\<not> fieldIsFocused (fire reg DialogClose w)"
    by simp
  moreover have "\<not> fieldIsFocused (fire reg (IconClick n) w)"
    by (simp add: handleIconSelect_def setValue_def)
  moreover have "page (fire reg Previous w) = max 0 (page w - 1)"
    by simp
  moreover have "page (fire reg Next w) = min (totalPages (visibleIcons reg w) - 1) (page w + 1)"
    by simp
  moreover have "page (fire reg DebounceElapsed w) =
                 (if debouncedSearch w = search w then page w else 0)"
    by (simp add: debounceElapsed_def)
  ultimately show ?thesis
    using closing paging by blast
qed

theorem closing_clears_search_keeps_page_witness:
  "fieldIsFocused (run manyIcons [ActivateField, Next] (initial None)) \<and>
   \<not> fieldIsFocused
       (fire manyIcons DialogClose (run manyIcons [ActivateField, Next] (initial None))) \<and>
   search (fire manyIcons DialogClose (run manyIcons [ActivateField, Next] (initial None))) = [] \<and>
   page (fire manyIcons DialogClose (run manyIcons [ActivateField, Next] (initial None))) = 1 \<and>
   page (fire manyIcons Previous (run manyIcons [ActivateField, Next] (initial None))) \<noteq>
     page (run manyIcons [ActivateField, Next] (initial None)) \<and>
   page (fire manyIcons Previous (run manyIcons [ActivateField, Next] (initial None))) = 0"
proof -
  let ?w = "run manyIcons [ActivateField, Next] (initial None)"
  note inst = closing_clears_search_keeps_page [of ?w manyIcons DialogClose _ Previous]
  have opened: "fieldIsFocused ?w" and second: "page ?w = 1"
    by (simp_all add: browse_second_page)
  from inst have closed: "\<not> fieldIsFocused (fire manyIcons DialogClose ?w)"
    by blast
  from inst opened closed
  have kept: "search (fire manyIcons DialogClose ?w) = [] \<and>
              page (fire manyIcons DialogClose ?w) = page ?w"
    by blast
  from inst have "page (fire manyIcons Previous ?w) = max 0 (page ?w - 1)"
    by blast
  with second have first_page: "page (fire manyIcons Previous ?w) = 0"
    by simp
  with second have "page (fire manyIcons Previous ?w) \<noteq> page ?w"
    by simp
  with opened closed kept second first_page show ?thesis
    by simp
qed

end
